theory Spec2Isabelle
  imports Main
begin

section \<open>NeoShell: command parsing and pipeline execution (parser.py)\<close>

text \<open>
  A shallow embedding of \<^verbatim>\<open>src/parser.py\<close>: \<^verbatim>\<open>parse_command\<close>,
  \<^verbatim>\<open>parse_pipeline\<close>, \<^verbatim>\<open>execute_external\<close> and \<^verbatim>\<open>execute_pipeline\<close>.
  Python strings are \<^typ>\<open>string\<close>; a result dictionary \<^verbatim>\<open>{'error': msg}\<close> is
  \<open>Inl msg\<close>, a command dictionary is \<open>Inr\<close> of a record.
\<close>

subsection \<open>The tokenizer: \<^verbatim>\<open>shlex.split\<close>\<close>

text \<open>
  Modelled from the spec: the tokenizer (spec 4.1) is the call \<^verbatim>\<open>shlex.split(command_str)\<close>
  into Python's standard library, which is not among the repository's sources. The model is
  the state machine of \<^verbatim>\<open>shlex.read_token\<close> in the configuration \<^verbatim>\<open>split\<close> sets up:
  POSIX mode, \<^verbatim>\<open>whitespace_split = True\<close>, no comment characters, no punctuation characters.
  The lexer states \<^verbatim>\<open>' '\<close>, \<^verbatim>\<open>'a'\<close>, a quote character and the escape character are the
  constructors of \<open>lex_state\<close>. One recursion over the input stands for the repeated calls of
  \<^verbatim>\<open>read_token\<close>: where the Python breaks out of its loop with a token, the token is appended
  to the tokens read so far and \<^verbatim>\<open>token\<close>, \<^verbatim>\<open>quoted\<close>, \<^verbatim>\<open>escapedstate\<close> start afresh.
  A \<^verbatim>\<open>ValueError\<close> is \<open>Inl\<close> of its message.
\<close>

datatype lex_state = St_space | St_word | St_quote char | St_escape

definition shlex_whitespace :: "char \<Rightarrow> bool" where
  "shlex_whitespace c = (c \<in> set [CHR '' '', CHR 0x09, CHR 0x0D, CHR 0x0A])"

definition shlex_quotes :: "char \<Rightarrow> bool" where
  "shlex_quotes c = (c \<in> set [CHR 0x27, CHR 0x22])"

definition shlex_escape :: char where
  "shlex_escape = CHR 0x5C"

definition shlex_escapedquotes :: "char \<Rightarrow> bool" where
  "shlex_escapedquotes c = (c = CHR 0x22)"

fun escaped_prefix :: "lex_state \<Rightarrow> char \<Rightarrow> string" where
  "escaped_prefix (St_quote q) c =
     (if c \<noteq> shlex_escape \<and> c \<noteq> q then [shlex_escape] else [])"
| "escaped_prefix _ c = []"

fun shlex_run ::
  "lex_state \<Rightarrow> lex_state \<Rightarrow> bool \<Rightarrow> string \<Rightarrow> string list \<Rightarrow> string \<Rightarrow> string + string list"
where
  "shlex_run st esc quoted tok acc [] =
     (case st of
        St_quote q \<Rightarrow> Inl ''No closing quotation''
      | St_escape \<Rightarrow> Inl ''No escaped character''
      | _ \<Rightarrow> (if \<not> quoted \<and> tok = [] then Inr acc else Inr (acc @ [tok])))"
| "shlex_run st esc quoted tok acc (c # cs) =
     (case st of
        St_space \<Rightarrow>
          (if shlex_whitespace c then
             (if tok \<noteq> [] \<or> quoted then shlex_run St_space St_space False [] (acc @ [tok]) cs
              else shlex_run St_space esc quoted tok acc cs)
           else if c = shlex_escape then shlex_run St_escape St_word quoted tok acc cs
           else if shlex_quotes c then shlex_run (St_quote c) esc quoted tok acc cs
           else shlex_run St_word esc quoted [c] acc cs)
      | St_quote q \<Rightarrow>
          (if c = q then shlex_run St_word esc True tok acc cs
           else if c = shlex_escape \<and> shlex_escapedquotes q then
             shlex_run St_escape (St_quote q) True tok acc cs
           else shlex_run (St_quote q) esc True (tok @ [c]) acc cs)
      | St_escape \<Rightarrow> shlex_run esc esc quoted (tok @ escaped_prefix esc c @ [c]) acc cs
      | St_word \<Rightarrow>
          (if shlex_whitespace c then
             (if tok \<noteq> [] \<or> quoted then shlex_run St_space St_space False [] (acc @ [tok]) cs
              else shlex_run St_space esc quoted tok acc cs)
           else if shlex_quotes c then shlex_run (St_quote c) esc quoted tok acc cs
           else if c = shlex_escape then shlex_run St_escape St_word quoted tok acc cs
           else shlex_run St_word esc quoted (tok @ [c]) acc cs))"

definition shlex_split :: "string \<Rightarrow> string + string list" where
  "shlex_split s = shlex_run St_space St_space False [] [] s"

subsection \<open>\<^verbatim>\<open>parse_command\<close>\<close>

text \<open>
  The dictionary \<^verbatim>\<open>result\<close> of \<^verbatim>\<open>parse_command\<close>. The key \<^verbatim>\<open>'append'\<close> is the field
  \<open>append_flag\<close> (\<open>append\<close> is list concatenation in HOL).
\<close>

record parsed_cmd =
  command :: string
  args :: "string list"
  input_file :: "string option"
  output_file :: "string option"
  append_flag :: bool

text \<open>
  The \<^verbatim>\<open>while i < len(tokens)\<close> loop of lines 31 to 53, with the index \<open>i\<close> and the
  dictionary \<open>result\<close> as the loop state. Every read \<open>tokens ! (i + 1)\<close> is guarded by
  \<open>i + 1 < length tokens\<close>, as in the source.
\<close>

function parse_loop :: "string list \<Rightarrow> nat \<Rightarrow> parsed_cmd \<Rightarrow> string + parsed_cmd" where
  "parse_loop tokens i result =
     (if i < length tokens then
        (if tokens ! i = ''>'' then
           (if i + 1 < length tokens then
              parse_loop tokens (i + 2) (result\<lparr>output_file := Some (tokens ! (i + 1))\<rparr>)
            else Inl ''Missing filename after >'')
         else if tokens ! i = ''>>'' then
           (if i + 1 < length tokens then
              parse_loop tokens (i + 2)
                (result\<lparr>output_file := Some (tokens ! (i + 1)), append_flag := True\<rparr>)
            else Inl ''Missing filename after >>'')
         else if tokens ! i = ''<'' then
           (if i + 1 < length tokens then
              parse_loop tokens (i + 2) (result\<lparr>input_file := Some (tokens ! (i + 1))\<rparr>)
            else Inl ''Missing filename after <'')
         else parse_loop tokens (i + 1) (result\<lparr>args := args result @ [tokens ! i]\<rparr>))
      else Inr result)"
  by pat_completeness auto
termination
  by (relation "measure (\<lambda>(tokens, i, result). length tokens - i)") auto

declare parse_loop.simps [simp del]

text \<open>Lines 19 to 55: what \<^verbatim>\<open>parse_command\<close> does with the token list.\<close>

definition parse_tokens :: "string list \<Rightarrow> string + parsed_cmd" where
  "parse_tokens tokens =
     (case tokens of
        [] \<Rightarrow> Inl ''Empty command''
      | t # _ \<Rightarrow>
          parse_loop tokens 1
            \<lparr>command = t, args = [], input_file = None, output_file = None,
             append_flag = False\<rparr>)"

definition parse_command :: "string \<Rightarrow> string + parsed_cmd" where
  "parse_command command_str =
     (case shlex_split command_str of
        Inl e \<Rightarrow> Inl (''Syntax error: '' @ e)
      | Inr tokens \<Rightarrow> parse_tokens tokens)"

subsection \<open>\<^verbatim>\<open>parse_pipeline\<close>\<close>

text \<open>
  \<^verbatim>\<open>str.split('|')\<close> cuts at every occurrence of the separator and always returns at least
  one piece. \<^verbatim>\<open>str.strip()\<close> removes the characters for which \<^verbatim>\<open>str.isspace\<close> holds from
  both ends; a \<^typ>\<open>char\<close> stands for a code point below 256.
\<close>

fun py_split :: "char \<Rightarrow> string \<Rightarrow> string list" where
  "py_split sep [] = [[]]"
| "py_split sep (c # cs) =
     (if c = sep then [] # py_split sep cs
      else (case py_split sep cs of
              [] \<Rightarrow> [[c]]
            | w # ws \<Rightarrow> (c # w) # ws))"

definition py_isspace :: "char \<Rightarrow> bool" where
  "py_isspace c =
     (c \<in> set [CHR 0x09, CHR 0x0A, CHR 0x0B, CHR 0x0C, CHR 0x0D, CHR 0x1C, CHR 0x1D,
                CHR 0x1E, CHR 0x1F, CHR 0x20, CHR 0x85, CHR 0xA0])"

definition py_strip :: "string \<Rightarrow> string" where
  "py_strip s = rev (dropWhile py_isspace (rev (dropWhile py_isspace s)))"

text \<open>
  The \<^verbatim>\<open>for cmd in pipeline\<close> loop of lines 64 to 72, with the list \<^verbatim>\<open>commands\<close> as the
  loop state; each \<^verbatim>\<open>return\<close> inside the loop ends the recursion.
\<close>

fun parse_stages :: "string list \<Rightarrow> parsed_cmd list \<Rightarrow> string + parsed_cmd list" where
  "parse_stages [] commands = Inr commands"
| "parse_stages (cmd # pipeline) commands =
     (if py_strip cmd = [] then Inl ''Empty command in pipeline''
      else (case parse_command (py_strip cmd) of
              Inl e \<Rightarrow> Inl e
            | Inr parsed \<Rightarrow> parse_stages pipeline (commands @ [parsed])))"

definition parse_pipeline :: "string \<Rightarrow> string + parsed_cmd list" where
  "parse_pipeline command_str = parse_stages (py_split (CHR ''|'') command_str) []"

subsection \<open>The operating system as the executor sees it\<close>

text \<open>
  The executor's calls into the operating system and into libraries are \<^verbatim>\<open>open\<close>,
  \<^verbatim>\<open>subprocess.run\<close>, \<^verbatim>\<open>subprocess.Popen\<close>, \<^verbatim>\<open>Popen.wait\<close>, reading a process's
  standard-error pipe, \<^verbatim>\<open>print\<close>, rich's \<^verbatim>\<open>console.print\<close> and \<^verbatim>\<open>close\<close>. What they answer
  is the parameter \<open>os_env\<close>:
  \<^item> \<open>os_open\<close>: whether opening a path in a mode raises;
  \<^item> \<open>os_spawn\<close>: whether starting an argument list raises, or gives a process with its exit
    code and the text of its standard error;
  \<^item> \<open>os_hangs\<close>: whether waiting for the process started from an argument list never returns
    (the process never exits, or it blocks writing into a pipe that the parent does not read);
  \<^item> \<open>os_decode\<close>: whether reading the standard error of that process as text raises (the
    pipes are opened with \<^verbatim>\<open>text=True\<close>, and bytes that do not decode raise
    \<^verbatim>\<open>UnicodeDecodeError\<close>);
  \<^item> \<open>os_print\<close>: whether \<^verbatim>\<open>print\<close> of a text to a stream raises;
  \<^item> \<open>rich_available\<close>: whether \<^verbatim>\<open>ui.py\<close> could import rich and made its \<^verbatim>\<open>console\<close>;
  \<^item> \<open>rich_print\<close>: what \<^verbatim>\<open>console.print\<close> does with the markup \<^verbatim>\<open>print_error\<close> builds
    around a message: it raises (rich raises \<^verbatim>\<open>MarkupError\<close> on a closing tag inside the
    message), or it shows a text, which need not hold the message word for word (rich reads
    bracketed parts as markup).

  An exception carries the text of \<^verbatim>\<open>str(e)\<close>; \<open>OtherError\<close> stands for every other
  subclass of \<^verbatim>\<open>Exception\<close>. Exceptions outside \<^verbatim>\<open>Exception\<close> (a keyboard interrupt) are
  not modelled, and \<^verbatim>\<open>close\<close> is taken to succeed.
\<close>

datatype exn = FileNotFoundError string | PermissionError string | OtherError string

fun exn_str :: "exn \<Rightarrow> string" where
  "exn_str (FileNotFoundError m) = m"
| "exn_str (PermissionError m) = m"
| "exn_str (OtherError m) = m"

text \<open>
  How a call of one of the two executor functions ends: it returns a value, an exception
  leaves it, or it never returns.
\<close>

datatype 'a outcome = Returns 'a | Raises exn | Blocks

datatype open_mode = Mode_r | Mode_w | Mode_a

datatype stream = Stdout | Stderr

record os_env =
  os_open :: "string \<Rightarrow> open_mode \<Rightarrow> exn option"
  os_spawn :: "string list \<Rightarrow> exn + (int \<times> string)"
  os_hangs :: "string list \<Rightarrow> bool"
  os_decode :: "string list \<Rightarrow> exn option"
  os_print :: "stream \<Rightarrow> string \<Rightarrow> exn option"
  rich_available :: bool
  rich_print :: "string \<Rightarrow> exn + string"

text \<open>
  The parent's side of the world: the handles it holds open, the processes it has started (in
  start order; a process's \<open>pid\<close> is its position), the processes it has waited on, the
  texts \<^verbatim>\<open>print_error\<close> has shown and the texts written to \<^verbatim>\<open>sys.stderr\<close>. Only explicit
  \<^verbatim>\<open>close\<close> calls release a handle here; what the garbage collector does after the function
  has returned is outside the model.
\<close>

datatype handle = File_handle string open_mode | Stdout_pipe nat | Stderr_pipe nat

datatype stdout_arg = Inherit | Pipe | To_file handle

record proc =
  pid :: nat
  cmd_list :: "string list"
  proc_stdin :: "handle option"
  proc_stdout_arg :: stdout_arg
  returncode :: int
  err_text :: string
  proc_stdout :: "handle option"
  proc_stderr :: handle

record world =
  open_handles :: "handle list"
  started :: "proc list"
  waited :: "nat list"
  errors :: "string list"
  stderr_text :: "string list"

definition world0 :: world where
  "world0 = \<lparr>open_handles = [], started = [], waited = [], errors = [], stderr_text = []\<rparr>"

text \<open>
  \<^verbatim>\<open>print_error\<close> of \<^verbatim>\<open>ui.py\<close>, lines 28 to 33: with rich the message goes to
  \<^verbatim>\<open>console.print\<close> inside the \<^verbatim>\<open>[error]\<close> markup, otherwise \<^verbatim>\<open>print\<close> writes it behind
  the prefix \<open>ERROR: \<close>. The result is the exception the call raised, if any.
\<close>

definition print_error :: "os_env \<Rightarrow> string \<Rightarrow> world \<Rightarrow> exn option \<times> world" where
  "print_error env message w =
     (if rich_available env then
        (case rich_print env message of
           Inl e \<Rightarrow> (Some e, w)
         | Inr shown \<Rightarrow> (None, w\<lparr>errors := errors w @ [shown]\<rparr>))
      else
        (case os_print env Stdout (''ERROR: '' @ message) of
           Some e \<Rightarrow> (Some e, w)
         | None \<Rightarrow> (None, w\<lparr>errors := errors w @ [''ERROR: '' @ message]\<rparr>)))"

text \<open>\<^verbatim>\<open>print(text, file=sys.stderr, end='')\<close>.\<close>

definition print_stderr :: "os_env \<Rightarrow> string \<Rightarrow> world \<Rightarrow> exn option \<times> world" where
  "print_stderr env text w =
     (case os_print env Stderr text of
        Some e \<Rightarrow> (Some e, w)
      | None \<Rightarrow> (None, w\<lparr>stderr_text := stderr_text w @ [text]\<rparr>))"

text \<open>
  The statement \<^verbatim>\<open>if err: print(err, file=sys.stderr, end='')\<close> of lines 111 to 112 and 169
  to 170.
\<close>

definition print_if_nonempty :: "os_env \<Rightarrow> string \<Rightarrow> world \<Rightarrow> exn option \<times> world" where
  "print_if_nonempty env err w = (if err \<noteq> [] then print_stderr env err w else (None, w))"

definition py_open :: "os_env \<Rightarrow> string \<Rightarrow> open_mode \<Rightarrow> world \<Rightarrow> (exn + handle) \<times> world" where
  "py_open env path mode w =
     (case os_open env path mode of
        Some e \<Rightarrow> (Inl e, w)
      | None \<Rightarrow>
          (Inr (File_handle path mode),
           w\<lparr>open_handles := open_handles w @ [File_handle path mode]\<rparr>))"

definition py_close :: "handle \<Rightarrow> world \<Rightarrow> world" where
  "py_close h w = w\<lparr>open_handles := remove1 h (open_handles w)\<rparr>"

fun close_if :: "handle option \<Rightarrow> world \<Rightarrow> world" where
  "close_if None w = w"
| "close_if (Some h) w = py_close h w"

text \<open>
  \<^verbatim>\<open>Popen(cmd_list, stdin=..., stdout=..., stderr=PIPE)\<close>: when the program cannot be started
  the constructor raises and leaves the parent's handles as they were; otherwise the parent
  holds the read end of the standard-error pipe and, for \<^verbatim>\<open>stdout=PIPE\<close>, of the
  standard-output pipe.
\<close>

definition popen ::
  "os_env \<Rightarrow> string list \<Rightarrow> handle option \<Rightarrow> stdout_arg \<Rightarrow> world \<Rightarrow> (exn + proc) \<times> world"
where
  "popen env cl stdin stdout w =
     (case os_spawn env cl of
        Inl e \<Rightarrow> (Inl e, w)
      | Inr (rc, err) \<Rightarrow>
          (let n = length (started w);
               out = (if stdout = Pipe then Some (Stdout_pipe n) else None);
               p = \<lparr>pid = n, cmd_list = cl, proc_stdin = stdin, proc_stdout_arg = stdout,
                    returncode = rc, err_text = err, proc_stdout = out,
                    proc_stderr = Stderr_pipe n\<rparr>
           in (Inr p,
               w\<lparr>started := started w @ [p],
                 open_handles :=
                   open_handles w @ (case out of None \<Rightarrow> [] | Some h \<Rightarrow> [h]) @ [Stderr_pipe n]\<rparr>)))"

text \<open>
  \<^verbatim>\<open>subprocess.run\<close> starts the process and reads its standard error until the process is
  done, which may never happen. When the text does not decode, \<^verbatim>\<open>run\<close> kills the process
  and raises. Either way it has waited for the process and closed the pipes it made itself
  when it is left.
\<close>

definition subprocess_run ::
  "os_env \<Rightarrow> string list \<Rightarrow> handle option \<Rightarrow> stdout_arg \<Rightarrow> world \<Rightarrow> proc outcome \<times> world"
where
  "subprocess_run env cl stdin stdout w =
     (case popen env cl stdin stdout w of
        (Inl e, w1) \<Rightarrow> (Raises e, w1)
      | (Inr p, w1) \<Rightarrow>
          (if os_hangs env cl then (Blocks, w1)
           else
             (let w2 = close_if (proc_stdout p)
                         (py_close (proc_stderr p) (w1\<lparr>waited := waited w1 @ [pid p]\<rparr>))
              in case os_decode env cl of
                   Some e \<Rightarrow> (Raises e, w2)
                 | None \<Rightarrow> (Returns p, w2))))"

text \<open>Python's truth value of a path: \<^verbatim>\<open>None\<close> and the empty string are false.\<close>

fun truthy :: "string option \<Rightarrow> string option" where
  "truthy None = None"
| "truthy (Some p) = (if p = [] then None else Some p)"

fun to_file :: "handle option \<Rightarrow> stdout_arg" where
  "to_file None = Inherit"
| "to_file (Some h) = To_file h"

subsection \<open>\<^verbatim>\<open>execute_external\<close>\<close>

text \<open>
  The body of the \<^verbatim>\<open>try\<close> block, in three steps. It ends with an exception that reaches
  the \<^verbatim>\<open>except\<close> clauses, with the value of a \<^verbatim>\<open>return\<close> statement, where \<open>None\<close> is
  Python's \<^verbatim>\<open>None\<close> of the bare \<^verbatim>\<open>return\<close> on line 92, or not at all. An exception that
  \<^verbatim>\<open>print_error\<close> raises on line 91 is raised inside the \<^verbatim>\<open>try\<close> block as well.
\<close>

definition external_launch ::
  "os_env \<Rightarrow> string list \<Rightarrow> handle option \<Rightarrow> handle option \<Rightarrow> world
     \<Rightarrow> int option outcome \<times> world"
where
  "external_launch env cl stdin stdout w =
     (case subprocess_run env cl stdin (to_file stdout) w of
        (Raises e, w1) \<Rightarrow> (Raises e, w1)
      | (Blocks, w1) \<Rightarrow> (Blocks, w1)
      | (Returns result, w1) \<Rightarrow>
          (case print_if_nonempty env (err_text result) (close_if stdout (close_if stdin w1)) of
             (Some e, w2) \<Rightarrow> (Raises e, w2)
           | (None, w2) \<Rightarrow> (Returns (Some (returncode result)), w2)))"

definition external_output ::
  "os_env \<Rightarrow> parsed_cmd \<Rightarrow> string list \<Rightarrow> handle option \<Rightarrow> world
     \<Rightarrow> int option outcome \<times> world"
where
  "external_output env parsed_cmd cl stdin w =
     (case truthy (output_file parsed_cmd) of
        None \<Rightarrow> external_launch env cl stdin None w
      | Some path \<Rightarrow>
          (case py_open env path (if append_flag parsed_cmd then Mode_a else Mode_w) w of
             (Inl e, w1) \<Rightarrow> (Raises e, w1)
           | (Inr h, w1) \<Rightarrow> external_launch env cl stdin (Some h) w1))"

definition external_body ::
  "os_env \<Rightarrow> parsed_cmd \<Rightarrow> world \<Rightarrow> int option outcome \<times> world"
where
  "external_body env parsed_cmd w =
     (let cl = command parsed_cmd # args parsed_cmd in
      case truthy (input_file parsed_cmd) of
        None \<Rightarrow> external_output env parsed_cmd cl None w
      | Some path \<Rightarrow>
          (case py_open env path Mode_r w of
             (Inl (FileNotFoundError m), w1) \<Rightarrow>
               (case print_error env (''Input file not found: '' @ path) w1 of
                  (Some e, w2) \<Rightarrow> (Raises e, w2)
                | (None, w2) \<Rightarrow> (Returns None, w2))
           | (Inl e, w1) \<Rightarrow> (Raises e, w1)
           | (Inr h, w1) \<Rightarrow> external_output env parsed_cmd cl (Some h) w1))"

text \<open>
  The three \<^verbatim>\<open>except\<close> clauses of lines 116 to 124, tried in order: the message the clause
  prints and the code it returns. An exception that \<^verbatim>\<open>print_error\<close> raises inside a clause
  leaves the function.
\<close>

fun external_message :: "exn \<Rightarrow> parsed_cmd \<Rightarrow> string" where
  "external_message (FileNotFoundError m) parsed_cmd = ''Command not found: '' @ command parsed_cmd"
| "external_message (PermissionError m) parsed_cmd = ''Permission denied: '' @ command parsed_cmd"
| "external_message e parsed_cmd = ''Error: '' @ exn_str e"

fun external_code :: "exn \<Rightarrow> int" where
  "external_code (FileNotFoundError m) = 127"
| "external_code (PermissionError m) = 126"
| "external_code e = 1"

definition external_handler ::
  "os_env \<Rightarrow> exn \<Rightarrow> parsed_cmd \<Rightarrow> world \<Rightarrow> int option outcome \<times> world"
where
  "external_handler env e parsed_cmd w =
     (case print_error env (external_message e parsed_cmd) w of
        (Some e', w1) \<Rightarrow> (Raises e', w1)
      | (None, w1) \<Rightarrow> (Returns (Some (external_code e)), w1))"

definition execute_external ::
  "os_env \<Rightarrow> parsed_cmd \<Rightarrow> world \<Rightarrow> int option outcome \<times> world"
where
  "execute_external env parsed_cmd w =
     (case external_body env parsed_cmd w of
        (Raises e, w1) \<Rightarrow> external_handler env e parsed_cmd w1
      | (Blocks, w1) \<Rightarrow> (Blocks, w1)
      | (Returns r, w1) \<Rightarrow> (Returns r, w1))"

subsection \<open>\<^verbatim>\<open>execute_pipeline\<close>\<close>

text \<open>
  Lines 136 to 148: the standard input and the standard output of stage \<open>i\<close> of \<open>n\<close>.
  Inside the loop \<open>n\<close> is positive, so \<^verbatim>\<open>i == len(pipeline) - 1\<close> is \<open>Suc i = n\<close>. A file
  object is always true, so \<^verbatim>\<open>elif prev_stdout\<close> asks whether \<open>prev_stdout\<close> is not
  \<^verbatim>\<open>None\<close>.
\<close>

definition stage_stdin ::
  "os_env \<Rightarrow> nat \<Rightarrow> parsed_cmd \<Rightarrow> handle option \<Rightarrow> world \<Rightarrow> (exn + handle option) \<times> world"
where
  "stage_stdin env i cmd_dict prev_stdout w =
     (case (if i = 0 then truthy (input_file cmd_dict) else None) of
        Some path \<Rightarrow>
          (case py_open env path Mode_r w of
             (Inl e, w1) \<Rightarrow> (Inl e, w1)
           | (Inr h, w1) \<Rightarrow> (Inr (Some h), w1))
      | None \<Rightarrow> (Inr prev_stdout, w))"

definition stage_stdout ::
  "os_env \<Rightarrow> nat \<Rightarrow> nat \<Rightarrow> parsed_cmd \<Rightarrow> world \<Rightarrow> (exn + stdout_arg) \<times> world"
where
  "stage_stdout env i n cmd_dict w =
     (if Suc i = n then
        (case truthy (output_file cmd_dict) of
           Some path \<Rightarrow>
             (case py_open env path (if append_flag cmd_dict then Mode_a else Mode_w) w of
                (Inl e, w1) \<Rightarrow> (Inl e, w1)
              | (Inr h, w1) \<Rightarrow> (Inr (To_file h), w1))
         | None \<Rightarrow> (Inr Inherit, w))
      else (Inr Pipe, w))"

text \<open>
  The \<^verbatim>\<open>for i, cmd_dict in enumerate(pipeline)\<close> loop of lines 133 to 163, with
  \<open>processes\<close> and \<open>prev_stdout\<close> as the loop state. An exception ends the loop with the
  world as it is at that moment. Nothing in the loop waits.
\<close>

fun pipeline_loop ::
  "os_env \<Rightarrow> nat \<Rightarrow> nat \<Rightarrow> parsed_cmd list \<Rightarrow> proc list \<Rightarrow> handle option \<Rightarrow> world
     \<Rightarrow> (exn + proc list) \<times> world"
where
  "pipeline_loop env n i [] processes prev_stdout w = (Inr processes, w)"
| "pipeline_loop env n i (cmd_dict # rest) processes prev_stdout w =
     (case stage_stdin env i cmd_dict prev_stdout w of
        (Inl e, w1) \<Rightarrow> (Inl e, w1)
      | (Inr stdin, w1) \<Rightarrow>
          (case stage_stdout env i n cmd_dict w1 of
             (Inl e, w2) \<Rightarrow> (Inl e, w2)
           | (Inr stdout, w2) \<Rightarrow>
               (case popen env (command cmd_dict # args cmd_dict) stdin stdout w2 of
                  (Inl e, w3) \<Rightarrow> (Inl e, w3)
                | (Inr p, w3) \<Rightarrow>
                    pipeline_loop env n (Suc i) rest (processes @ [p]) (proc_stdout p)
                      (close_if prev_stdout w3))))"

text \<open>
  Lines 165 to 170: wait for each process in turn, which may never return; then read its
  standard-error pipe (set for every process, since each was started with
  \<^verbatim>\<open>stderr=PIPE\<close>), which may raise, and print what is not empty.
\<close>

fun wait_all :: "os_env \<Rightarrow> proc list \<Rightarrow> world \<Rightarrow> unit outcome \<times> world" where
  "wait_all env [] w = (Returns (), w)"
| "wait_all env (p # ps) w =
     (if os_hangs env (cmd_list p) then (Blocks, w)
      else
        (let w1 = w\<lparr>waited := waited w @ [pid p]\<rparr>
         in case os_decode env (cmd_list p) of
              Some e \<Rightarrow> (Raises e, w1)
            | None \<Rightarrow>
                (case print_if_nonempty env (err_text p) w1 of
                   (Some e, w2) \<Rightarrow> (Raises e, w2)
                 | (None, w2) \<Rightarrow> wait_all env ps w2)))"

text \<open>
  The two \<^verbatim>\<open>except\<close> clauses of lines 174 to 179, tried in order: the message the clause
  prints and the code it returns.
\<close>

fun pipeline_message :: "exn \<Rightarrow> string" where
  "pipeline_message (FileNotFoundError m) = ''Command not found in pipeline''"
| "pipeline_message e = ''Pipeline error: '' @ exn_str e"

fun pipeline_code :: "exn \<Rightarrow> int" where
  "pipeline_code (FileNotFoundError m) = 127"
| "pipeline_code e = 1"

definition pipeline_handler :: "os_env \<Rightarrow> exn \<Rightarrow> world \<Rightarrow> int outcome \<times> world" where
  "pipeline_handler env e w =
     (case print_error env (pipeline_message e) w of
        (Some e', w1) \<Rightarrow> (Raises e', w1)
      | (None, w1) \<Rightarrow> (Returns (pipeline_code e), w1))"

definition execute_pipeline ::
  "os_env \<Rightarrow> parsed_cmd list \<Rightarrow> world \<Rightarrow> int outcome \<times> world"
where
  "execute_pipeline env pipeline w =
     (case pipeline_loop env (length pipeline) 0 pipeline [] None w of
        (Inl e, w1) \<Rightarrow> pipeline_handler env e w1
      | (Inr processes, w1) \<Rightarrow>
          (case wait_all env processes w1 of
             (Blocks, w2) \<Rightarrow> (Blocks, w2)
           | (Raises e, w2) \<Rightarrow> pipeline_handler env e w2
           | (Returns u, w2) \<Rightarrow> (Returns 0, w2)))"

subsection \<open>Reference definitions\<close>

text \<open>
  The command parser as section 4.2 of the specification words it, on the token sequence:
  the first token is the program; \<open>>\<close> takes the next token as output path with append
  false, \<open>>>\<close> takes it with append true, \<open><\<close> takes it as input path, each failing when
  no next token exists; every other token is appended to the arguments. The errors are given
  the messages of the source so that the two parsers can be compared.
\<close>

fun spec_scan :: "string list \<Rightarrow> parsed_cmd \<Rightarrow> string + parsed_cmd" where
  "spec_scan [] r = Inr r"
| "spec_scan [t] r =
     (if t = ''>'' \<or> t = ''>>'' \<or> t = ''<'' then Inl (''Missing filename after '' @ t)
      else Inr (r\<lparr>args := args r @ [t]\<rparr>))"
| "spec_scan (t # f # rest) r =
     (if t = ''>'' then spec_scan rest (r\<lparr>output_file := Some f, append_flag := False\<rparr>)
      else if t = ''>>'' then spec_scan rest (r\<lparr>output_file := Some f, append_flag := True\<rparr>)
      else if t = ''<'' then spec_scan rest (r\<lparr>input_file := Some f\<rparr>)
      else spec_scan (f # rest) (r\<lparr>args := args r @ [t]\<rparr>))"

definition spec_parseCommand :: "string list \<Rightarrow> string + parsed_cmd" where
  "spec_parseCommand tokens =
     (case tokens of
        [] \<Rightarrow> Inl ''Empty command''
      | program # rest \<Rightarrow>
          spec_scan rest
            \<lparr>command = program, args = [], input_file = None, output_file = None,
             append_flag = False\<rparr>)"

text \<open>A parse result with the append flag blanked out.\<close>

definition forget_append :: "string + parsed_cmd \<Rightarrow> string + parsed_cmd" where
  "forget_append x = map_sum id (\<lambda>r. r\<lparr>append_flag := False\<rparr>) x"

text \<open>
  What one redirection does to the dictionary: the assignments of lines 34, 40 to 41 and 47.
\<close>

definition apply_redirection :: "string \<Rightarrow> string \<Rightarrow> parsed_cmd \<Rightarrow> parsed_cmd" where
  "apply_redirection operator filename r =
     (if operator = ''>'' then r\<lparr>output_file := Some filename\<rparr>
      else if operator = ''>>'' then r\<lparr>output_file := Some filename, append_flag := True\<rparr>
      else r\<lparr>input_file := Some filename\<rparr>)"

text \<open>What one pass of the loop of \<^verbatim>\<open>parse_pipeline\<close> makes of one segment.\<close>

definition stage_result :: "string \<Rightarrow> string + parsed_cmd" where
  "stage_result seg =
     (if py_strip seg = [] then Inl ''Empty command in pipeline''
      else parse_command (py_strip seg))"

text \<open>
  The input file of a command is set and opening it for reading raises
  \<^verbatim>\<open>FileNotFoundError\<close>.
\<close>

definition input_not_found :: "os_env \<Rightarrow> parsed_cmd \<Rightarrow> bool" where
  "input_not_found env parsed_cmd =
     (case truthy (input_file parsed_cmd) of
        None \<Rightarrow> False
      | Some path \<Rightarrow>
          (case os_open env path Mode_r of
             Some (FileNotFoundError m) \<Rightarrow> True
           | _ \<Rightarrow> False))"

text \<open>
  A small system to run concrete commands on: the file \<open>missing.txt\<close> does not exist, the
  empty path cannot be opened either, and every other path opens; \<open>ls\<close> and \<open>cat\<close> exit
  with 0, \<open>false\<close> exits with 1, \<open>script.sh\<close> exists without execute permission, and no other
  program exists; no process hangs, every standard-error text decodes, \<^verbatim>\<open>print\<close> never
  raises and rich is not installed. \<open>simple_cmd p\<close> is the dictionary \<^verbatim>\<open>parse_command\<close>
  returns for the single word \<open>p\<close>.
\<close>

definition demo_env :: os_env where
  "demo_env =
     \<lparr>os_open = (\<lambda>path mode.
        if path = ''missing.txt'' \<or> path = []
        then Some (FileNotFoundError ''No such file or directory'')
        else None),
      os_spawn = (\<lambda>cl.
        if cl = [''ls''] then Inr (0, [])
        else if cl = [''cat''] then Inr (0, [])
        else if cl = [''false''] then Inr (1, [])
        else if cl = [''script.sh''] then Inl (PermissionError ''Permission denied'')
        else Inl (FileNotFoundError ''No such file or directory'')),
      os_hangs = (\<lambda>cl. False),
      os_decode = (\<lambda>cl. None),
      os_print = (\<lambda>stream text. None),
      rich_available = False,
      rich_print = (\<lambda>message. Inr message)\<rparr>"

definition simple_cmd :: "string \<Rightarrow> parsed_cmd" where
  "simple_cmd p =
     \<lparr>command = p, args = [], input_file = None, output_file = None, append_flag = False\<rparr>"

section \<open>Properties of the parser\<close>

subsection \<open>Splitting and the stage loop\<close>

lemmas lex_defs = shlex_split_def shlex_whitespace_def shlex_quotes_def shlex_escape_def
  shlex_escapedquotes_def

lemmas strip_defs = py_strip_def py_isspace_def

lemma py_split_not_Nil: "py_split sep s \<noteq> []"
  by (induction s) (simp_all split: list.splits)

lemma length_py_split: "length (py_split sep s) = Suc (count_list s sep)"
proof (induction s)
  case Nil
  show ?case by simp
next
  case (Cons c s)
  obtain w ws where ws: "py_split sep s = w # ws"
    using py_split_not_Nil [of sep s] by (cases "py_split sep s") auto
  with Cons show ?case by simp
qed

lemma py_split_no_sep: "seg \<in> set (py_split sep s) \<Longrightarrow> sep \<notin> set seg"
proof (induction s arbitrary: seg)
  case Nil
  then show ?case by simp
next
  case (Cons c s)
  obtain w ws where ws: "py_split sep s = w # ws"
    using py_split_not_Nil [of sep s] by (cases "py_split sep s") auto
  show ?case
  proof (cases "c = sep")
    case True
    with Cons show ?thesis by auto
  next
    case False
    with Cons.prems ws have "seg = c # w \<or> seg \<in> set ws" by simp
    moreover have "sep \<notin> set w" using Cons.IH [of w] ws by simp
    moreover have "seg \<in> set ws \<Longrightarrow> sep \<notin> set seg" using Cons.IH [of seg] ws by simp
    ultimately show ?thesis using False by auto
  qed
qed

lemma parse_stages_Cons:
  "parse_stages (seg # segs) commands =
     (case stage_result seg of
        Inl e \<Rightarrow> Inl e
      | Inr parsed \<Rightarrow> parse_stages segs (commands @ [parsed]))"
  by (simp add: stage_result_def)

lemma parse_stages_results:
  "parse_stages segs commands = Inr stages \<Longrightarrow>
   map Inr stages = map Inr commands @ map stage_result segs"
proof (induction segs arbitrary: commands)
  case Nil
  then show ?case by simp
next
  case (Cons seg segs)
  show ?case
  proof (cases "stage_result seg")
    case (Inl e)
    with Cons.prems show ?thesis by (simp only: parse_stages_Cons sum.case) simp
  next
    case (Inr parsed)
    with Cons.prems have r: "parse_stages segs (commands @ [parsed]) = Inr stages"
      by (simp only: parse_stages_Cons sum.case)
    from Cons.IH [OF r] Inr show ?thesis by simp
  qed
qed

lemma parse_stages_first_error:
  assumes "\<forall>s\<in>set pre. \<not> isl (stage_result s)" and "stage_result seg = Inl e"
  shows "parse_stages (pre @ seg # post) commands = Inl e"
  using assms
proof (induction pre arbitrary: commands)
  case Nil
  then show ?case by (simp only: parse_stages_Cons append_Nil) simp
next
  case (Cons a pre)
  then obtain parsed where p: "stage_result a = Inr parsed"
    by (cases "stage_result a") auto
  from Cons.prems have rest: "\<forall>s\<in>set pre. \<not> isl (stage_result s)" by simp
  have "parse_stages ((a # pre) @ seg # post) commands
      = parse_stages (pre @ seg # post) (commands @ [parsed])"
    by (simp only: append_Cons parse_stages_Cons p sum.case)
  also have "\<dots> = Inl e" using Cons.IH [OF rest Cons.prems(2)] .
  finally show ?case .
qed

lemma stage_result_failure:
  "isl (stage_result s) = (py_strip s = [] \<or> isl (parse_command (py_strip s)))"
  by (simp add: stage_result_def)

subsection \<open>The token loop\<close>

lemma parse_loop_done: "\<not> i < length tokens \<Longrightarrow> parse_loop tokens i r = Inr r"
  by (subst parse_loop.simps) simp

lemma drop_two:
  "i + 1 < length ts \<Longrightarrow> drop i ts = ts ! i # ts ! (i + 1) # drop (i + 2) ts"
  by (metis Cons_nth_drop_Suc Suc_eq_plus1 Suc_lessD add_2_eq_Suc')

lemma drop_last_one:
  "i < length ts \<Longrightarrow> \<not> i + 1 < length ts \<Longrightarrow> drop i ts = [ts ! i]"
  by (metis Cons_nth_drop_Suc Suc_eq_plus1 drop_all linorder_not_less)

text \<open>
  Apart from the append flag, the loop of the source computes what the specification's scan
  computes on the tokens that are left.
\<close>

lemma parse_loop_forget:
  "r\<lparr>append_flag := False\<rparr> = r'\<lparr>append_flag := False\<rparr> \<Longrightarrow>
   forget_append (parse_loop tokens i r) = forget_append (spec_scan (drop i tokens) r')"
proof (induction tokens i r arbitrary: r' rule: parse_loop.induct)
  case (1 tokens i result)
  note eq = "1.prems"
  have flds: "command result = command r'" "args result = args r'"
    "input_file result = input_file r'" "output_file result = output_file r'"
    using eq by (cases result; cases r'; simp)+
  show ?case
  proof (cases "i < length tokens")
    case False
    then show ?thesis using eq
      by (subst parse_loop.simps) (simp add: forget_append_def)
  next
    case lt: True
    show ?thesis
    proof (cases "i + 1 < length tokens")
      case False
      with lt have d: "drop i tokens = [tokens ! i]" by (rule drop_last_one)
      show ?thesis using lt False eq flds
        by (subst parse_loop.simps)
          (cases result; cases r'; simp add: d forget_append_def parse_loop_done)
    next
      case True
      then have d: "drop i tokens = tokens ! i # tokens ! (i + 1) # drop (i + 2) tokens"
        by (rule drop_two)
      have d1: "drop (Suc i) tokens = tokens ! Suc i # drop (Suc (Suc i)) tokens"
        using True by (simp add: Cons_nth_drop_Suc)
      consider (gt) "tokens ! i = ''>''" | (gtgt) "tokens ! i = ''>>''"
        | (lt') "tokens ! i = ''<''"
        | (other) "tokens ! i \<noteq> ''>''" "tokens ! i \<noteq> ''>>''" "tokens ! i \<noteq> ''<''"
        by blast
      then show ?thesis
      proof cases
        case gt
        have "forget_append (parse_loop tokens (i + 2)
                 (result\<lparr>output_file := Some (tokens ! (i + 1))\<rparr>))
            = forget_append (spec_scan (drop (i + 2) tokens)
                 (r'\<lparr>output_file := Some (tokens ! (i + 1)), append_flag := False\<rparr>))"
          using lt True gt eq by (intro "1.IH"(1)) (cases result; cases r'; simp)+
        then show ?thesis using lt True gt
          by (subst parse_loop.simps) (simp add: d)
      next
        case gtgt
        have "forget_append (parse_loop tokens (i + 2)
                 (result\<lparr>output_file := Some (tokens ! (i + 1)), append_flag := True\<rparr>))
            = forget_append (spec_scan (drop (i + 2) tokens)
                 (r'\<lparr>output_file := Some (tokens ! (i + 1)), append_flag := True\<rparr>))"
          using lt True gtgt eq by (intro "1.IH"(2)) (cases result; cases r'; simp)+
        then show ?thesis using lt True gtgt
          by (subst parse_loop.simps) (simp add: d)
      next
        case lt'
        have "forget_append (parse_loop tokens (i + 2)
                 (result\<lparr>input_file := Some (tokens ! (i + 1))\<rparr>))
            = forget_append (spec_scan (drop (i + 2) tokens)
                 (r'\<lparr>input_file := Some (tokens ! (i + 1))\<rparr>))"
          using lt True lt' eq by (intro "1.IH"(3)) (cases result; cases r'; simp)+
        then show ?thesis using lt True lt'
          by (subst parse_loop.simps) (simp add: d)
      next
        case other
        have "forget_append (parse_loop tokens (i + 1)
                 (result\<lparr>args := args result @ [tokens ! i]\<rparr>))
            = forget_append (spec_scan (drop (i + 1) tokens)
                 (r'\<lparr>args := args r' @ [tokens ! i]\<rparr>))"
          using lt other eq flds by (intro "1.IH"(4)) (cases result; cases r'; simp)+
        then show ?thesis using lt True other
          by (subst parse_loop.simps) (simp add: d d1)
      qed
    qed
  qed
qed

lemma parse_tokens_forget:
  "forget_append (parse_tokens tokens) = forget_append (spec_parseCommand tokens)"
proof (cases tokens)
  case Nil
  then show ?thesis by (simp add: parse_tokens_def spec_parseCommand_def)
next
  case (Cons p rest)
  then show ?thesis
    using parse_loop_forget [of _ _ "p # rest" 1]
    by (simp add: parse_tokens_def spec_parseCommand_def)
qed

text \<open>
  Without a \<open>>>\<close> among the tokens the flag is never set, and the two parsers agree
  altogether.
\<close>

lemma parse_loop_no_append:
  "''>>'' \<notin> set tokens \<Longrightarrow> \<not> append_flag r \<Longrightarrow>
   parse_loop tokens i r = Inr r' \<Longrightarrow> \<not> append_flag r'"
proof (induction tokens i r rule: parse_loop.induct)
  case (1 tokens i result)
  show ?case
  proof (cases "i < length tokens")
    case False
    with "1.prems" show ?thesis by (simp add: parse_loop_done)
  next
    case True
    then have ne: "tokens ! i \<noteq> ''>>''" using "1.prems"(1) by (metis nth_mem)
    have step: "parse_loop tokens i result =
       (if tokens ! i = ''>'' then
          (if i + 1 < length tokens then
             parse_loop tokens (i + 2) (result\<lparr>output_file := Some (tokens ! (i + 1))\<rparr>)
           else Inl ''Missing filename after >'')
        else if tokens ! i = ''<'' then
          (if i + 1 < length tokens then
             parse_loop tokens (i + 2) (result\<lparr>input_file := Some (tokens ! (i + 1))\<rparr>)
           else Inl ''Missing filename after <'')
        else parse_loop tokens (i + 1) (result\<lparr>args := args result @ [tokens ! i]\<rparr>))"
      using True ne by (subst parse_loop.simps) simp
    show ?thesis
    proof (cases "tokens ! i = ''>''")
      case gt: True
      with step "1.prems"(3) have n: "i + 1 < length tokens"
        by (auto split: if_splits)
      with step gt "1.prems"(3)
      have "parse_loop tokens (i + 2) (result\<lparr>output_file := Some (tokens ! (i + 1))\<rparr>) = Inr r'"
        by simp
      then show ?thesis using "1.IH"(1) [OF True gt n "1.prems"(1)] "1.prems"(2) by simp
    next
      case ngt: False
      show ?thesis
      proof (cases "tokens ! i = ''<''")
        case l: True
        with step ngt "1.prems"(3) have n: "i + 1 < length tokens"
          by (auto split: if_splits)
        with step ngt l "1.prems"(3)
        have "parse_loop tokens (i + 2) (result\<lparr>input_file := Some (tokens ! (i + 1))\<rparr>) = Inr r'"
          by simp
        then show ?thesis
          using "1.IH"(3) [OF True ngt ne l n "1.prems"(1)] "1.prems"(2) by simp
      next
        case nl: False
        with step ngt "1.prems"(3)
        have "parse_loop tokens (i + 1) (result\<lparr>args := args result @ [tokens ! i]\<rparr>) = Inr r'"
          by simp
        then show ?thesis
          using "1.IH"(4) [OF True ngt ne nl "1.prems"(1)] "1.prems"(2) by simp
      qed
    qed
  qed
qed

lemma spec_scan_no_append:
  "''>>'' \<notin> set ts \<Longrightarrow> \<not> append_flag r \<Longrightarrow> spec_scan ts r = Inr r' \<Longrightarrow> \<not> append_flag r'"
proof (induction ts r rule: spec_scan.induct)
  case (1 r)
  then show ?case by simp
next
  case (2 t r)
  then show ?case by (auto split: if_splits)
next
  case (3 t f rest r)
  from "3.prems"(1) have ne: "t \<noteq> ''>>''" and rest: "''>>'' \<notin> set rest"
    and frest: "''>>'' \<notin> set (f # rest)"
    by auto
  show ?case
  proof (cases "t = ''>''")
    case True
    with "3.prems"(3)
    have "spec_scan rest (r\<lparr>output_file := Some f, append_flag := False\<rparr>) = Inr r'" by simp
    then show ?thesis using "3.IH"(1) [OF True rest] by simp
  next
    case ngt: False
    show ?thesis
    proof (cases "t = ''<''")
      case True
      with ngt ne "3.prems"(3) have "spec_scan rest (r\<lparr>input_file := Some f\<rparr>) = Inr r'"
        by simp
      then show ?thesis using "3.IH"(3) [OF ngt ne True rest] "3.prems"(2) by simp
    next
      case False
      with ngt ne "3.prems"(3)
      have "spec_scan (f # rest) (r\<lparr>args := args r @ [t]\<rparr>) = Inr r'" by simp
      then show ?thesis using "3.IH"(4) [OF ngt ne False frest] "3.prems"(2) by simp
    qed
  qed
qed

lemma forget_append_eq:
  assumes "forget_append x = forget_append y"
    and "\<And>r. x = Inr r \<Longrightarrow> \<not> append_flag r"
    and "\<And>r. y = Inr r \<Longrightarrow> \<not> append_flag r"
  shows "x = y"
proof (cases x)
  case (Inl e)
  with assms(1) show ?thesis by (cases y) (simp_all add: forget_append_def)
next
  case (Inr r)
  with assms(1) obtain r' where y: "y = Inr r'"
    and eq: "r\<lparr>append_flag := False\<rparr> = r'\<lparr>append_flag := False\<rparr>"
    by (cases y) (simp_all add: forget_append_def)
  from assms(2) [OF Inr] assms(3) [OF y] eq have "r = r'"
    by (cases r; cases r'; simp)
  with Inr y show ?thesis by simp
qed

lemma parse_tokens_without_append:
  assumes "''>>'' \<notin> set tokens"
  shows "parse_tokens tokens = spec_parseCommand tokens"
proof (rule forget_append_eq [OF parse_tokens_forget])
  fix r assume a: "parse_tokens tokens = Inr r"
  show "\<not> append_flag r"
  proof (cases tokens)
    case Nil
    with a show ?thesis by (simp add: parse_tokens_def)
  next
    case (Cons p rest)
    let ?r0 = "\<lparr>command = p, args = [], input_file = None, output_file = None,
                append_flag = False\<rparr>"
    from a Cons have "parse_loop tokens 1 ?r0 = Inr r" by (simp add: parse_tokens_def)
    from parse_loop_no_append [OF assms _ this] show ?thesis by simp
  qed
next
  fix r assume a: "spec_parseCommand tokens = Inr r"
  show "\<not> append_flag r"
  proof (cases tokens)
    case Nil
    with a show ?thesis by (simp add: spec_parseCommand_def)
  next
    case (Cons p rest)
    let ?r0 = "\<lparr>command = p, args = [], input_file = None, output_file = None,
                append_flag = False\<rparr>"
    from a Cons have s: "spec_scan rest ?r0 = Inr r" by (simp add: spec_parseCommand_def)
    from assms Cons have "''>>'' \<notin> set rest" by simp
    from spec_scan_no_append [OF this _ s] show ?thesis by simp
  qed
qed

text \<open>One pass of the loop on a redirection operator that has a next token.\<close>

lemma parse_loop_redirection_step:
  assumes "i + 1 < length tokens" and "tokens ! i \<in> {''>'', ''>>'', ''<''}"
  shows "parse_loop tokens i r =
           parse_loop tokens (i + 2) (apply_redirection (tokens ! i) (tokens ! (i + 1)) r)"
  using assms by (subst parse_loop.simps) (auto simp: apply_redirection_def)

text \<open>
  When the scan of \<open>pre\<close> from position \<open>i\<close> ends well, the scan of a longer sequence that
  begins with \<open>pre\<close> reaches the end of \<open>pre\<close> in the same state.
\<close>

lemma parse_loop_prefix:
  "i \<le> length pre \<Longrightarrow> parse_loop pre i r0 = Inr r \<Longrightarrow>
   parse_loop (pre @ suf) i r0 = parse_loop (pre @ suf) (length pre) r"
proof (induction pre i r0 rule: parse_loop.induct)
  case (1 tokens i result)
  show ?case
  proof (cases "i < length tokens")
    case False
    with "1.prems" have "i = length tokens" and "r = result"
      by (simp_all add: parse_loop_done)
    then show ?thesis by simp
  next
    case lt: True
    have nth_i: "(tokens @ suf) ! i = tokens ! i" using lt by (simp add: nth_append)
    have lt': "i < length (tokens @ suf)" using lt by simp
    consider (gt) "tokens ! i = ''>''" | (gtgt) "tokens ! i = ''>>''"
      | (inp) "tokens ! i = ''<''"
      | (other) "tokens ! i \<noteq> ''>''" "tokens ! i \<noteq> ''>>''" "tokens ! i \<noteq> ''<''"
      by blast
    then show ?thesis
    proof cases
      case gt
      have n: "i + 1 < length tokens"
      proof (rule ccontr)
        assume "\<not> i + 1 < length tokens"
        with lt gt have "parse_loop tokens i result = Inl ''Missing filename after >''"
          by (subst parse_loop.simps) simp
        with "1.prems"(2) show False by simp
      qed
      have nth_n: "(tokens @ suf) ! (i + 1) = tokens ! (i + 1)" using n by (simp add: nth_append)
      have n': "i + 1 < length (tokens @ suf)" using n by simp
      from lt gt n "1.prems"(2)
      have rec: "parse_loop tokens (i + 2) (result\<lparr>output_file := Some (tokens ! (i + 1))\<rparr>) = Inr r"
        by (subst (asm) parse_loop.simps) simp
      have le: "i + 2 \<le> length tokens" using n by simp
      have "parse_loop (tokens @ suf) i result =
          parse_loop (tokens @ suf) (i + 2) (result\<lparr>output_file := Some (tokens ! (i + 1))\<rparr>)"
        using lt' n' gt nth_i nth_n by (subst parse_loop.simps) simp
      also have "\<dots> = parse_loop (tokens @ suf) (length tokens) r"
        using "1.IH"(1) [OF lt gt n le rec] .
      finally show ?thesis .
    next
      case gtgt
      have n: "i + 1 < length tokens"
      proof (rule ccontr)
        assume "\<not> i + 1 < length tokens"
        with lt gtgt have "parse_loop tokens i result = Inl ''Missing filename after >>''"
          by (subst parse_loop.simps) simp
        with "1.prems"(2) show False by simp
      qed
      have ngt: "tokens ! i \<noteq> ''>''" using gtgt by simp
      have nth_n: "(tokens @ suf) ! (i + 1) = tokens ! (i + 1)" using n by (simp add: nth_append)
      have n': "i + 1 < length (tokens @ suf)" using n by simp
      from lt gtgt n "1.prems"(2)
      have rec: "parse_loop tokens (i + 2)
          (result\<lparr>output_file := Some (tokens ! (i + 1)), append_flag := True\<rparr>) = Inr r"
        by (subst (asm) parse_loop.simps) simp
      have le: "i + 2 \<le> length tokens" using n by simp
      have "parse_loop (tokens @ suf) i result =
          parse_loop (tokens @ suf) (i + 2)
            (result\<lparr>output_file := Some (tokens ! (i + 1)), append_flag := True\<rparr>)"
        using lt' n' gtgt nth_i nth_n by (subst parse_loop.simps) simp
      also have "\<dots> = parse_loop (tokens @ suf) (length tokens) r"
        using "1.IH"(2) [OF lt ngt gtgt n le rec] .
      finally show ?thesis .
    next
      case inp
      have n: "i + 1 < length tokens"
      proof (rule ccontr)
        assume "\<not> i + 1 < length tokens"
        with lt inp have "parse_loop tokens i result = Inl ''Missing filename after <''"
          by (subst parse_loop.simps) simp
        with "1.prems"(2) show False by simp
      qed
      have ngt: "tokens ! i \<noteq> ''>''" and ngtgt: "tokens ! i \<noteq> ''>>''" using inp by simp_all
      have nth_n: "(tokens @ suf) ! (i + 1) = tokens ! (i + 1)" using n by (simp add: nth_append)
      have n': "i + 1 < length (tokens @ suf)" using n by simp
      from lt inp n "1.prems"(2)
      have rec: "parse_loop tokens (i + 2) (result\<lparr>input_file := Some (tokens ! (i + 1))\<rparr>) = Inr r"
        by (subst (asm) parse_loop.simps) simp
      have le: "i + 2 \<le> length tokens" using n by simp
      have "parse_loop (tokens @ suf) i result =
          parse_loop (tokens @ suf) (i + 2) (result\<lparr>input_file := Some (tokens ! (i + 1))\<rparr>)"
        using lt' n' inp nth_i nth_n by (subst parse_loop.simps) simp
      also have "\<dots> = parse_loop (tokens @ suf) (length tokens) r"
        using "1.IH"(3) [OF lt ngt ngtgt inp n le rec] .
      finally show ?thesis .
    next
      case other
      from lt other "1.prems"(2)
      have rec: "parse_loop tokens (i + 1) (result\<lparr>args := args result @ [tokens ! i]\<rparr>) = Inr r"
        by (subst (asm) parse_loop.simps) simp
      have le: "i + 1 \<le> length tokens" using lt by simp
      have "parse_loop (tokens @ suf) i result =
          parse_loop (tokens @ suf) (i + 1) (result\<lparr>args := args result @ [tokens ! i]\<rparr>)"
        using lt' other nth_i by (subst parse_loop.simps) simp
      also have "\<dots> = parse_loop (tokens @ suf) (length tokens) r"
        using "1.IH"(4) [OF lt other le rec] .
      finally show ?thesis .
    qed
  qed
qed

lemma parse_tokens_prefix:
  assumes "parse_tokens pre = Inr r"
  shows "parse_tokens (pre @ suf) = parse_loop (pre @ suf) (length pre) r"
proof (cases pre)
  case Nil
  with assms show ?thesis by (simp add: parse_tokens_def)
next
  case (Cons p ps)
  let ?r0 = "\<lparr>command = p, args = [], input_file = None, output_file = None,
              append_flag = False\<rparr>"
  from assms Cons have a: "parse_loop pre 1 ?r0 = Inr r" by (simp add: parse_tokens_def)
  have le: "1 \<le> length pre" using Cons by simp
  from parse_loop_prefix [OF le a, of suf] Cons show ?thesis
    by (simp add: parse_tokens_def)
qed

section \<open>The claims about the parser\<close>

text \<open>
  C4 (the code departs from it). Claim: when a token sequence holds more than one output
  redirection the last one wins, also for the append flag, so that
  \<open>cat >> a > b\<close> gives output path \<open>b\<close> with append false. On the code the line
  \<open>cat >> a > b\<close> is tokenized into these five tokens, the output path is \<open>b\<close>, and the
  append flag is still true: the branch for \<open>>\<close> (lines 32 to 35) never resets the flag that
  an earlier \<open>>>\<close> has set.
\<close>

theorem truncate_after_append_keeps_flag:
  "shlex_split ''cat >> a > b'' = Inr [''cat'', ''>>'', ''a'', ''>'', ''b'']
   \<and> parse_tokens [''cat'', ''>>'', ''a'', ''>'', ''b''] =
       Inr \<lparr>command = ''cat'', args = [], input_file = None, output_file = Some ''b'',
            append_flag = True\<rparr>
   \<and> parse_command ''cat >> a > b'' =
       Inr \<lparr>command = ''cat'', args = [], input_file = None, output_file = Some ''b'',
            append_flag = True\<rparr>"
proof -
  have t: "shlex_split ''cat >> a > b'' = Inr [''cat'', ''>>'', ''a'', ''>'', ''b'']"
    by (simp add: lex_defs)
  have p: "parse_tokens [''cat'', ''>>'', ''a'', ''>'', ''b''] =
       Inr \<lparr>command = ''cat'', args = [], input_file = None, output_file = Some ''b'',
            append_flag = True\<rparr>"
    by (simp add: parse_tokens_def parse_loop.simps)
  from t p show ?thesis by (simp add: parse_command_def)
qed

text \<open>
  C5 (counterexample). Claim: a quoted \<open>|\<close> does not separate stages, so that the line
  \<open>echo "a|b"\<close> parses as one stage. On the code the line is cut at its \<open>|\<close> into the
  segments \<open>echo "a\<close> and \<open>b"\<close>, and the parse fails on the first with an unterminated
  quote.
\<close>

theorem quoted_bar_is_split_counterexample:
  \<open>py_split (CHR ''|'') ''echo "a|b"'' = [''echo "a'', ''b"'']
   \<and> parse_pipeline ''echo "a|b"'' = Inl ''Syntax error: No closing quotation''\<close>
  by (simp add: parse_pipeline_def parse_command_def lex_defs strip_defs)

text \<open>
  C5 (as amended). The line is cut at every \<open>|\<close> character, quoted or escaped or not:
  whenever \<^verbatim>\<open>parse_pipeline\<close> succeeds, there is exactly one stage more than the line has
  \<open>|\<close> characters, and the stages are, in order, the parses of the trimmed pieces between
  consecutive \<open>|\<close> characters.
\<close>

theorem parse_pipeline_cuts_at_every_bar:
  assumes "parse_pipeline line = Inr stages"
  shows "length stages = Suc (count_list line (CHR ''|''))
         \<and> map Inr stages =
             map (\<lambda>seg. parse_command (py_strip seg)) (py_split (CHR ''|'') line)"
proof -
  let ?segs = "py_split (CHR ''|'') line"
  from assms have ps: "parse_stages ?segs [] = Inr stages"
    by (simp add: parse_pipeline_def)
  from parse_stages_results [OF ps] have m: "map Inr stages = map stage_result ?segs"
    by simp
  have ok: "stage_result seg = parse_command (py_strip seg)" if "seg \<in> set ?segs" for seg
  proof -
    from that m have "stage_result seg \<in> set (map Inr stages)" by simp
    then have "\<not> isl (stage_result seg)" by auto
    then show ?thesis by (auto simp: stage_result_def split: if_splits)
  qed
  from m have "length stages = length ?segs"
    by (metis length_map)
  with m ok show ?thesis by (simp add: length_py_split cong: map_cong)
qed

theorem parse_pipeline_cuts_at_every_bar_witness:
  "parse_pipeline ''a | b'' = Inr [simple_cmd ''a'', simple_cmd ''b'']
   \<and> length [simple_cmd ''a'', simple_cmd ''b''] = Suc (count_list ''a | b'' (CHR ''|''))"
proof -
  have h: "parse_pipeline ''a | b'' = Inr [simple_cmd ''a'', simple_cmd ''b'']"
    by (simp add: parse_pipeline_def parse_command_def lex_defs strip_defs parse_tokens_def
        parse_loop.simps simple_cmd_def)
  from parse_pipeline_cuts_at_every_bar [OF h] h show ?thesis by simp
qed

text \<open>
  C6 (the code departs from it). Claim: \<^verbatim>\<open>parse_command\<close> takes the first token as the
  program and scans the rest, taking \<open>>\<close> with its next token as output path with append
  false, \<open>>>\<close> as output path with append true, \<open><\<close> as input path, every other token as an
  argument, and fails when an operator has no next token. That is \<open>spec_parseCommand\<close>. On
  the tokens of \<open>cat >> a > b\<close> the scan of the claim ends with append false and the code
  ends with append true; the two agree on everything but that flag (on every token sequence,
  by \<open>parse_tokens_forget\<close>, and altogether when no \<open>>>\<close> occurs, by
  \<open>parse_tokens_without_append\<close>).
\<close>

theorem parse_tokens_departs_from_spec_scan:
  "spec_parseCommand [''cat'', ''>>'', ''a'', ''>'', ''b''] =
     Inr \<lparr>command = ''cat'', args = [], input_file = None, output_file = Some ''b'',
          append_flag = False\<rparr>
   \<and> parse_tokens [''cat'', ''>>'', ''a'', ''>'', ''b''] =
     Inr \<lparr>command = ''cat'', args = [], input_file = None, output_file = Some ''b'',
          append_flag = True\<rparr>
   \<and> parse_tokens [''cat'', ''>>'', ''a'', ''>'', ''b'']
       \<noteq> spec_parseCommand [''cat'', ''>>'', ''a'', ''>'', ''b'']"
  by (simp add: spec_parseCommand_def parse_tokens_def parse_loop.simps)

text \<open>
  C7 (counterexample). Claim: \<^verbatim>\<open>parse_pipeline\<close> fails with the empty-stage error whenever
  any segment is empty after trimming. In the line \<open>ls > | | x\<close> the second segment is empty
  after trimming, and the result is the missing-filename error of the first segment, not the
  empty-stage error.
\<close>

theorem empty_segment_behind_parse_error_counterexample:
  "py_strip (py_split (CHR ''|'') ''ls > | | x'' ! 1) = []
   \<and> parse_pipeline ''ls > | | x'' = Inl ''Missing filename after >''
   \<and> parse_pipeline ''ls > | | x'' \<noteq> Inl ''Empty command in pipeline''"
  by (simp add: parse_pipeline_def parse_command_def lex_defs strip_defs parse_tokens_def
      parse_loop.simps)

text \<open>
  C7 (as amended). Whenever some segment of the line is empty after trimming, or fails to
  tokenize or to parse as a command, \<^verbatim>\<open>parse_pipeline\<close> fails, and its result is the error
  of the first such segment in line order and nothing else: the empty-stage error when that
  segment is empty after trimming, its tokenization or parse error otherwise.
\<close>

theorem parse_pipeline_first_error:
  assumes "seg \<in> set (py_split (CHR ''|'') line)"
    and "py_strip seg = [] \<or> isl (parse_command (py_strip seg))"
  shows "\<exists>pre s post e.
           py_split (CHR ''|'') line = pre @ s # post
           \<and> (\<forall>t\<in>set pre. py_strip t \<noteq> [] \<and> \<not> isl (parse_command (py_strip t)))
           \<and> parse_pipeline line = Inl e
           \<and> (if py_strip s = [] then e = ''Empty command in pipeline''
               else parse_command (py_strip s) = Inl e)"
proof -
  let ?segs = "py_split (CHR ''|'') line"
  from assms have "\<exists>x\<in>set ?segs. isl (stage_result x)"
    by (auto simp: stage_result_failure)
  then obtain pre s post where dec: "?segs = pre @ s # post"
    and bad: "isl (stage_result s)"
    and good: "\<forall>t\<in>set pre. \<not> isl (stage_result t)"
    using split_list_first_prop [of ?segs "\<lambda>x. isl (stage_result x)"] by blast
  from bad obtain e where e: "stage_result s = Inl e"
    by (cases "stage_result s") auto
  from parse_stages_first_error [OF good e, of post "[]"] dec
  have res: "parse_pipeline line = Inl e"
    by (simp add: parse_pipeline_def)
  have "\<forall>t\<in>set pre. py_strip t \<noteq> [] \<and> \<not> isl (parse_command (py_strip t))"
    using good by (simp add: stage_result_failure)
  moreover have "if py_strip s = [] then e = ''Empty command in pipeline''
      else parse_command (py_strip s) = Inl e"
    using e by (auto simp: stage_result_def split: if_splits)
  ultimately show ?thesis using dec res by blast
qed

theorem parse_pipeline_first_error_witness:
  "'' '' \<in> set (py_split (CHR ''|'') ''a | | c'') \<and> py_strip '' '' = []
   \<and> isl (parse_pipeline ''a | | c'')"
proof -
  have h1: "'' '' \<in> set (py_split (CHR ''|'') ''a | | c'')" by simp
  have h2: "py_strip '' '' = []" by (simp add: strip_defs)
  from parse_pipeline_first_error [OF h1 disjI1 [OF h2]]
  obtain e where "parse_pipeline ''a | | c'' = Inl e" by blast
  then have "isl (parse_pipeline ''a | | c'')" by simp
  with h1 h2 show ?thesis by simp
qed

text \<open>
  C10 (counterexample). Claim: in every token sequence in which the token right after a
  redirection operator is itself a redirection operator, that second token is taken as the
  file name and is not read as an operator. In \<open>ls > > >>\<close> the third token \<open>>\<close> is a
  redirection operator and the token after it is \<open>>>\<close>; yet \<open>>>\<close> is read as an operator,
  and the parse fails because no file name follows it. The third token had itself been taken
  as the file name of the second, so the scan never stood on it.
\<close>

theorem operator_behind_filename_operator_counterexample:
  "[''ls'', ''>'', ''>'', ''>>''] ! 2 = ''>'' \<and> [''ls'', ''>'', ''>'', ''>>''] ! 3 = ''>>''
   \<and> shlex_split ''ls > > >>'' = Inr [''ls'', ''>'', ''>'', ''>>'']
   \<and> parse_tokens [''ls'', ''>'', ''>'', ''>>''] = Inl ''Missing filename after >>''
   \<and> parse_command ''ls > > >>'' = Inl ''Missing filename after >>''"
proof -
  have t: "shlex_split ''ls > > >>'' = Inr [''ls'', ''>'', ''>'', ''>>'']"
    by (simp add: lex_defs)
  have p: "parse_tokens [''ls'', ''>'', ''>'', ''>>''] = Inl ''Missing filename after >>''"
    by (simp add: parse_tokens_def parse_loop.simps)
  from t p show ?thesis by (simp add: parse_command_def)
qed

text \<open>
  C10 (as amended). Take a token sequence in which a redirection operator stands where the
  scan reads an operator, that is, the tokens before it parse as a command on their own, and
  in which the next token is spelled like a redirection operator too. Then
  \<^verbatim>\<open>parse_command\<close> takes that next token as the file name of the first and never reads it
  as an operator: the scan goes on behind the two with the redirection recorded, and when the
  two are the last tokens the parse ends there without an error; so \<open>ls > >>\<close> gives the
  output path \<open>>>\<close>.
\<close>

theorem operator_after_operator_is_filename:
  assumes "parse_tokens pre = Inr r"
    and "operator \<in> {''>'', ''>>'', ''<''}"
    and "filename \<in> {''>'', ''>>'', ''<''}"
  shows "parse_tokens (pre @ [operator, filename]) = Inr (apply_redirection operator filename r)
         \<and> parse_tokens (pre @ operator # filename # rest) =
             parse_loop (pre @ operator # filename # rest) (length pre + 2)
               (apply_redirection operator filename r)
         \<and> (shlex_split line = Inr (pre @ [operator, filename]) \<longrightarrow>
              parse_command line = Inr (apply_redirection operator filename r))"
proof -
  have step: "parse_tokens (pre @ operator # filename # suf) =
      parse_loop (pre @ operator # filename # suf) (length pre + 2)
        (apply_redirection operator filename r)" for suf
  proof -
    let ?ts = "pre @ operator # filename # suf"
    have n: "length pre + 1 < length ?ts" by simp
    have o: "?ts ! length pre = operator" by simp
    have f: "?ts ! (length pre + 1) = filename" by (simp add: nth_append)
    have "parse_tokens ?ts = parse_loop ?ts (length pre) r"
      using parse_tokens_prefix [OF assms(1)] .
    also have "\<dots> = parse_loop ?ts (length pre + 2)
        (apply_redirection (?ts ! length pre) (?ts ! (length pre + 1)) r)"
      using assms(2) by (intro parse_loop_redirection_step [OF n]) (simp only: o)
    finally show ?thesis by (simp only: o f)
  qed
  have last: "parse_tokens (pre @ [operator, filename]) =
      Inr (apply_redirection operator filename r)"
    using step [of "[]"] by (simp add: parse_loop_done)
  from step [of rest] last show ?thesis by (simp add: parse_command_def)
qed

theorem operator_after_operator_is_filename_witness:
  "parse_tokens [''ls''] = Inr (simple_cmd ''ls'')
   \<and> shlex_split ''ls > >>'' = Inr ([''ls''] @ [''>'', ''>>''])
   \<and> parse_command ''ls > >>'' =
       Inr \<lparr>command = ''ls'', args = [], input_file = None, output_file = Some ''>>'',
            append_flag = False\<rparr>"
proof -
  have h1: "parse_tokens [''ls''] = Inr (simple_cmd ''ls'')"
    by (simp add: parse_tokens_def parse_loop.simps simple_cmd_def)
  have h2: "''>'' \<in> {''>'', ''>>'', ''<''}" by simp
  have h3: "''>>'' \<in> {''>'', ''>>'', ''<''}" by simp
  have h4: "shlex_split ''ls > >>'' = Inr ([''ls''] @ [''>'', ''>>''])"
    by (simp add: lex_defs)
  from operator_after_operator_is_filename [OF h1 h2 h3, of "[]" "''ls > >>''"] h4
  have "parse_command ''ls > >>'' = Inr (apply_redirection ''>'' ''>>'' (simple_cmd ''ls''))"
    by blast
  with h1 h4 show ?thesis by (simp add: apply_redirection_def simple_cmd_def)
qed

section \<open>Properties of the executor\<close>

lemmas exec_defs = execute_pipeline_def execute_external_def external_body_def
  external_output_def external_launch_def external_handler_def pipeline_handler_def
  subprocess_run_def popen_def py_open_def py_close_def stage_stdin_def stage_stdout_def
  print_error_def print_stderr_def print_if_nonempty_def demo_env_def simple_cmd_def
  world0_def Let_def

subsection \<open>What \<^verbatim>\<open>execute_pipeline\<close> can return\<close>

lemma pipeline_code_values: "pipeline_code e = 127 \<or> pipeline_code e = 1"
  by (cases e) simp_all

lemma pipeline_handler_returns:
  "pipeline_handler env e w = (Returns r, w1) \<Longrightarrow> r = pipeline_code e"
  by (auto simp: pipeline_handler_def split: prod.splits option.splits)

lemma execute_pipeline_codes:
  assumes "fst (execute_pipeline env pipeline w) = Returns r"
  shows "r \<in> {0, 127, 1}"
proof (cases "pipeline_loop env (length pipeline) 0 pipeline [] None w")
  case (Pair l w1)
  show ?thesis
  proof (cases l)
    case (Inl e)
    with Pair assms have "fst (pipeline_handler env e w1) = Returns r"
      by (simp add: execute_pipeline_def)
    then have "r = pipeline_code e"
      using pipeline_handler_returns [of env e w1 r] by (cases "pipeline_handler env e w1") simp
    with pipeline_code_values [of e] show ?thesis by auto
  next
    case (Inr processes)
    obtain o' w2 where wa: "wait_all env processes w1 = (o', w2)"
      by (cases "wait_all env processes w1")
    show ?thesis
    proof (cases o')
      case (Returns u)
      with Pair Inr wa assms show ?thesis by (simp add: execute_pipeline_def)
    next
      case (Raises e)
      with Pair Inr wa assms have "fst (pipeline_handler env e w2) = Returns r"
        by (simp add: execute_pipeline_def)
      then have "r = pipeline_code e"
        using pipeline_handler_returns [of env e w2 r] by (cases "pipeline_handler env e w2") simp
      with pipeline_code_values [of e] show ?thesis by auto
    next
      case Blocks
      with Pair Inr wa assms show ?thesis by (simp add: execute_pipeline_def)
    qed
  qed
qed

text \<open>A first stage whose input file does not exist ends the loop before anything starts.\<close>

lemma execute_pipeline_input_not_found:
  assumes "input_not_found env cmd_dict"
  shows "execute_pipeline env (cmd_dict # rest) w =
           (case print_error env ''Command not found in pipeline'' w of
              (Some e, w1) \<Rightarrow> (Raises e, w1)
            | (None, w1) \<Rightarrow> (Returns 127, w1))"
proof -
  from assms obtain path m where p: "truthy (input_file cmd_dict) = Some path"
    and o: "os_open env path Mode_r = Some (FileNotFoundError m)"
    by (auto simp: input_not_found_def split: option.splits exn.splits)
  then have "stage_stdin env 0 cmd_dict None w = (Inl (FileNotFoundError m), w)"
    by (simp add: stage_stdin_def py_open_def)
  then show ?thesis
    by (simp add: execute_pipeline_def pipeline_handler_def split: prod.splits option.splits)
qed

subsection \<open>The loop of \<^verbatim>\<open>execute_pipeline\<close> never waits\<close>

lemma waited_print_error: "print_error env m w = (r, w1) \<Longrightarrow> waited w1 = waited w"
  by (auto simp: print_error_def split: if_splits sum.splits option.splits)

lemma waited_pipeline_handler: "pipeline_handler env e w = (r, w1) \<Longrightarrow> waited w1 = waited w"
  by (auto simp: pipeline_handler_def split: prod.splits option.splits dest: waited_print_error)

lemma waited_py_close [simp]: "waited (py_close h w) = waited w"
  by (simp add: py_close_def)

lemma waited_close_if [simp]: "waited (close_if h w) = waited w"
  by (cases h) simp_all

lemma waited_py_open: "py_open env p m w = (r, w1) \<Longrightarrow> waited w1 = waited w"
  by (auto simp: py_open_def split: option.splits)

lemma waited_popen: "popen env cl i out w = (r, w1) \<Longrightarrow> waited w1 = waited w"
  by (auto simp: popen_def Let_def split: sum.splits prod.splits)

lemma waited_stage_stdin: "stage_stdin env i c prev w = (r, w1) \<Longrightarrow> waited w1 = waited w"
  by (auto simp: stage_stdin_def split: option.splits sum.splits prod.splits if_splits
      dest: waited_py_open)

lemma waited_stage_stdout: "stage_stdout env i n c w = (r, w1) \<Longrightarrow> waited w1 = waited w"
  by (auto simp: stage_stdout_def split: option.splits sum.splits prod.splits if_splits
      dest: waited_py_open)

lemma waited_pipeline_loop:
  "pipeline_loop env n i pl ps prev w = (r, w1) \<Longrightarrow> waited w1 = waited w"
proof (induction pl arbitrary: i ps prev w)
  case Nil
  then show ?case by simp
next
  case (Cons c rest)
  obtain r1 w1' where s1: "stage_stdin env i c prev w = (r1, w1')"
    by (cases "stage_stdin env i c prev w")
  show ?case
  proof (cases r1)
    case (Inl e)
    with Cons.prems s1 waited_stage_stdin [OF s1] show ?thesis by simp
  next
    case (Inr stdin)
    obtain r2 w2 where s2: "stage_stdout env i n c w1' = (r2, w2)"
      by (cases "stage_stdout env i n c w1'")
    show ?thesis
    proof (cases r2)
      case (Inl e)
      with Cons.prems s1 s2 Inr waited_stage_stdin [OF s1] waited_stage_stdout [OF s2]
      show ?thesis by simp
    next
      case out: (Inr stdout)
      obtain r3 w3 where s3: "popen env (command c # args c) stdin stdout w2 = (r3, w3)"
        by (cases "popen env (command c # args c) stdin stdout w2")
      show ?thesis
      proof (cases r3)
        case (Inl e)
        with Cons.prems s1 s2 s3 Inr out waited_stage_stdin [OF s1]
          waited_stage_stdout [OF s2] waited_popen [OF s3]
        show ?thesis by simp
      next
        case p: (Inr p)
        from Cons.prems s1 s2 s3 Inr out p
        have "pipeline_loop env n (Suc i) rest (ps @ [p]) (proc_stdout p) (close_if prev w3)
                = (r, w1)"
          by simp
        from Cons.IH [OF this] waited_stage_stdin [OF s1] waited_stage_stdout [OF s2]
          waited_popen [OF s3]
        show ?thesis by simp
      qed
    qed
  qed
qed

text \<open>
  So when the loop ends with an exception, \<^verbatim>\<open>execute_pipeline\<close> is left without having
  waited on any process, whatever was started before.
\<close>

lemma execute_pipeline_failure_no_wait:
  assumes "pipeline_loop env (length pipeline) 0 pipeline [] None w = (Inl e, w1)"
  shows "waited (snd (execute_pipeline env pipeline w)) = waited w"
proof -
  obtain r w2 where h: "pipeline_handler env e w1 = (r, w2)"
    by (cases "pipeline_handler env e w1")
  from assms h have "snd (execute_pipeline env pipeline w) = w2"
    by (simp add: execute_pipeline_def)
  with waited_pipeline_handler [OF h] waited_pipeline_loop [OF assms] show ?thesis by simp
qed

subsection \<open>What \<^verbatim>\<open>execute_external\<close> can return\<close>







text \<open>
  A command without redirections whose program cannot be started: the \<^verbatim>\<open>except\<close> clauses
  of \<^verbatim>\<open>execute_external\<close> decide the result, 127 for a missing program and 126 for a
  missing permission.
\<close>

lemma execute_external_launch_failure:
  assumes "truthy (input_file parsed_cmd) = None" and "truthy (output_file parsed_cmd) = None"
    and "os_spawn env (command parsed_cmd # args parsed_cmd) = Inl e"
  shows "execute_external env parsed_cmd w = external_handler env e parsed_cmd w"
  using assms
  by (simp add: execute_external_def external_body_def external_output_def
      external_launch_def subprocess_run_def popen_def)

section \<open>The claims about the executor\<close>

text \<open>
  C1 (the code departs from it). Claim: when every stage starts and runs to completion,
  \<^verbatim>\<open>execute_pipeline\<close> returns the exit code of the last stage. In the pipeline
  \<open>ls | false\<close> both stages start and are waited on, the last one exits with 1, and the
  function returns 0: line 172 is \<^verbatim>\<open>return 0\<close>, and the exit codes that \<^verbatim>\<open>wait\<close> gives
  are dropped. (By \<open>execute_pipeline_codes\<close> every value the function returns is 0, 127
  or 1.)
\<close>

theorem execute_pipeline_drops_exit_code:
  "fst (execute_pipeline demo_env [simple_cmd ''ls'', simple_cmd ''false''] world0) = Returns 0
   \<and> map returncode
        (started (snd (execute_pipeline demo_env [simple_cmd ''ls'', simple_cmd ''false'']
           world0))) = [0, 1]
   \<and> waited (snd (execute_pipeline demo_env [simple_cmd ''ls'', simple_cmd ''false''] world0))
       = [0, 1]"
  by (simp add: exec_defs)

text \<open>
  C2 (the code departs from it). Claim: when a stage fails to launch after an earlier stage
  has been started, \<^verbatim>\<open>execute_pipeline\<close> still waits on every started process and releases
  every handle the parent opened before it returns. In the pipeline \<open>ls | nosuch\<close> the
  first stage is started, the second cannot be found, and the function returns 127 with the
  first process never waited on and both of its pipes still open in the parent: the
  exception leaves the \<^verbatim>\<open>try\<close> block before the waiting loop of lines 165 to 170, and the
  \<^verbatim>\<open>except\<close> clauses only print and return. (By \<open>execute_pipeline_failure_no_wait\<close> this is
  so for every pipeline whose loop ends with an exception.)
\<close>

theorem execute_pipeline_abandons_started_stage:
  "execute_pipeline demo_env [simple_cmd ''ls'', simple_cmd ''nosuch''] world0 =
     (Returns 127,
      \<lparr>open_handles = [Stdout_pipe 0, Stderr_pipe 0],
       started =
         [\<lparr>pid = 0, cmd_list = [''ls''], proc_stdin = None, proc_stdout_arg = Pipe,
           returncode = 0, err_text = [], proc_stdout = Some (Stdout_pipe 0),
           proc_stderr = Stderr_pipe 0\<rparr>],
       waited = [], errors = [''ERROR: Command not found in pipeline''], stderr_text = []\<rparr>)"
  by (simp add: exec_defs)

text \<open>
  C3 (the code departs from it). Claim: a program that cannot be launched gives 127 when it
  does not exist and 126 when permission is denied, in \<^verbatim>\<open>execute_external\<close> and in
  \<^verbatim>\<open>execute_pipeline\<close> alike. For \<open>script.sh\<close>, which may not be executed,
  \<^verbatim>\<open>execute_external\<close> returns 126 and \<^verbatim>\<open>execute_pipeline\<close> returns 1: the pipeline has
  no \<^verbatim>\<open>except PermissionError\<close> clause, so the error falls to \<^verbatim>\<open>except Exception\<close>. For a
  program that does not exist both return 127.
\<close>

theorem execute_pipeline_permission_denied_returns_1:
  "os_spawn demo_env [''script.sh''] = Inl (PermissionError ''Permission denied'')
   \<and> execute_pipeline demo_env [simple_cmd ''script.sh''] world0 =
       (Returns 1, world0\<lparr>errors := [''ERROR: Pipeline error: Permission denied'']\<rparr>)
   \<and> execute_external demo_env (simple_cmd ''script.sh'') world0 =
       (Returns (Some 126), world0\<lparr>errors := [''ERROR: Permission denied: script.sh'']\<rparr>)
   \<and> fst (execute_pipeline demo_env [simple_cmd ''nosuch''] world0) = Returns 127
   \<and> fst (execute_external demo_env (simple_cmd ''nosuch'') world0) = Returns (Some 127)"
  by (simp add: exec_defs)

text \<open>
  C8 (the code departs from it). Claim: when the first stage names an input file that does
  not exist, execution fails at once with an input-not-found error that identifies the path,
  and no process is started. For \<open>cat < missing.txt\<close> as a pipeline no process is started,
  but the error is the one of a missing program: the message is
  \<open>Command not found in pipeline\<close>, without the path, and the result is 127, because the
  \<^verbatim>\<open>FileNotFoundError\<close> of \<^verbatim>\<open>open\<close> reaches the clause written for \<^verbatim>\<open>Popen\<close>.
  \<^verbatim>\<open>execute_external\<close> on the same command reports \<open>Input file not found: missing.txt\<close>.
  (By \<open>execute_pipeline_input_not_found\<close> this is so for every such pipeline.)
\<close>

theorem execute_pipeline_missing_input_reports_command:
  "execute_pipeline demo_env [(simple_cmd ''cat'')\<lparr>input_file := Some ''missing.txt''\<rparr>] world0
     = (Returns 127, world0\<lparr>errors := [''ERROR: Command not found in pipeline'']\<rparr>)
   \<and> started (snd (execute_pipeline demo_env
        [(simple_cmd ''cat'')\<lparr>input_file := Some ''missing.txt''\<rparr>] world0)) = []
   \<and> errors (snd (execute_external demo_env
        ((simple_cmd ''cat'')\<lparr>input_file := Some ''missing.txt''\<rparr>) world0))
       = [''ERROR: Input file not found: missing.txt'']"
  by (simp add: exec_defs)




end
